theory Spec2Isabelle
  imports Main "HOL-Library.AList"
begin

section \<open>Validators::ManagerImp: the scheduling shell\<close>

text \<open>
  The embedding follows \<^verbatim>\<open>src/ripple/validators/impl/Manager.cpp\<close>. The class
  \<^verbatim>\<open>ManagerImp\<close> becomes a record of its members, every member function a function
  from the state to the new state (and the returned value where there is one).

  The collaborators \<^verbatim>\<open>Logic\<close>, \<^verbatim>\<open>StoreSqdb\<close>, \<^verbatim>\<open>ServiceQueue\<close>,
  \<^verbatim>\<open>DeadlineTimer\<close>, \<^verbatim>\<open>Journal\<close>, \<^verbatim>\<open>Thread\<close> and \<^verbatim>\<open>Stoppable\<close> are declared
  outside this file. \<^verbatim>\<open>Logic\<close> is a parameter: its state is the type variable
  \<open>'l\<close> and its member functions are fields of the record \<open>env\<close>, so every theorem
  about the manager holds for every implementation of \<^verbatim>\<open>Logic\<close>.
\<close>

subsection \<open>Values passed through the manager\<close>

text \<open>\<^verbatim>\<open>Json::Value\<close>: only objects with string members are built here.\<close>

type_synonym json = "(string \<times> string) list"

text \<open>
  The sources the manager constructs: \<^verbatim>\<open>SourceStrings::New (name, stringArray)\<close>,
  \<^verbatim>\<open>SourceFile::New (file)\<close> and \<^verbatim>\<open>SourceURL::New (url)\<close>.
\<close>

datatype source =
    SourceStrings string "string list"
  | SourceFile string
  | SourceURL string

text \<open>
  \<^verbatim>\<open>ReceivedValidation\<close> and \<^verbatim>\<open>RippleLedgerHash\<close> are opaque payloads that the
  manager only forwards.
\<close>

type_synonym received_validation = nat
type_synonym ledger_hash = nat

text \<open>
  A queued handler: the closures that the manager passes to
  \<^verbatim>\<open>m_queue.dispatch (bind (...))\<close>, one constructor for each \<^verbatim>\<open>bind\<close> expression of
  the file.
\<close>

datatype task =
    Bind_Logic_buildChosen
  | Bind_Logic_add source
  | Bind_Logic_addStatic source
  | Bind_Logic_receiveValidation received_validation
  | Bind_Logic_ledgerClosed ledger_hash
  | Bind_setCheckSources
  | Bind_signalThreadShouldExit

datatype severity = Trace | Info | Fatal

subsection \<open>The parameters: constants, macros and \<^verbatim>\<open>Logic\<close>\<close>

text \<open>
  \<open>checkEverySeconds\<close> is a constant and \<open>RIPPLE_USE_NEW_VALIDATORS\<close> a macro, both
  defined outside this file. \<open>validators_file\<close> is the full path name of
  \<^verbatim>\<open>validators.sqlite\<close> in the user documents directory, \<open>store_open_error\<close> tells
  whether \<^verbatim>\<open>m_store.open (file)\<close> returns an error, and \<open>show_seconds\<close> is how
  \<^verbatim>\<open>RelativeTime::seconds\<close> prints. \<^verbatim>\<open>Logic::fetch_one\<close> returns a count, compared
  with \<^verbatim>\<open>0\<close> only.
\<close>

record 'l env =
  checkEverySeconds :: nat
  RIPPLE_USE_NEW_VALIDATORS :: bool
  validators_file :: string
  store_open_error :: "string \<Rightarrow> bool"
  show_seconds :: "nat \<Rightarrow> string"
  Logic_load :: "'l \<Rightarrow> 'l"
  Logic_fetch_one :: "'l \<Rightarrow> nat \<times> 'l"
  Logic_buildChosen :: "'l \<Rightarrow> 'l"
  Logic_add :: "source \<Rightarrow> 'l \<Rightarrow> 'l"
  Logic_addStatic :: "source \<Rightarrow> 'l \<Rightarrow> 'l"
  Logic_receiveValidation :: "received_validation \<Rightarrow> 'l \<Rightarrow> 'l"
  Logic_ledgerClosed :: "ledger_hash \<Rightarrow> 'l \<Rightarrow> 'l"
  Logic_rpcPrint :: "json \<Rightarrow> 'l \<Rightarrow> json \<times> 'l"
  Logic_rpcSources :: "json \<Rightarrow> 'l \<Rightarrow> json \<times> 'l"

subsection \<open>The state of \<^verbatim>\<open>ManagerImp\<close>\<close>

text \<open>
  The members \<^verbatim>\<open>m_journal\<close> (the lines written so far), \<^verbatim>\<open>m_store\<close> (the file it
  has opened), \<^verbatim>\<open>m_logic\<close>, \<^verbatim>\<open>m_checkTimer\<close> (the expiration it is armed with, in
  seconds, \<open>None\<close> when it is not armed), \<^verbatim>\<open>m_queue\<close> (the handlers waiting, oldest
  first) and \<^verbatim>\<open>m_checkSources\<close>; then the state of the base classes that the file
  reads or writes: \<^verbatim>\<open>Stoppable::isStopping ()\<close>, \<^verbatim>\<open>Thread::isThreadRunning ()\<close>,
  \<^verbatim>\<open>Thread::threadShouldExit ()\<close>, and whether \<^verbatim>\<open>Stoppable::stopped ()\<close> has been
  called.
\<close>

record 'l manager =
  m_journal :: "(severity \<times> string) list"
  m_store :: "string option"
  m_logic :: 'l
  m_checkTimer :: "nat option"
  m_queue :: "task list"
  m_checkSources :: bool
  isStopping :: bool
  isThreadRunning :: bool
  threadShouldExit :: bool
  stopped_called :: bool

text \<open>
  The constructor: \<^verbatim>\<open>m_checkSources (true)\<close>, a timer that has not been armed and
  an empty queue.
\<close>

definition ManagerImp :: "'l \<Rightarrow> 'l manager" where
  "ManagerImp l =
     \<lparr>m_journal = [], m_store = None, m_logic = l, m_checkTimer = None, m_queue = [],
      m_checkSources = True, isStopping = False, isThreadRunning = False,
      threadShouldExit = False, stopped_called = False\<rparr>"

subsection \<open>Collaborators with a state in the manager\<close>

text \<open>\<^verbatim>\<open>m_journal.<severity> << text\<close> appends one line.\<close>

definition journal :: "severity \<Rightarrow> string \<Rightarrow> 'l manager \<Rightarrow> 'l manager" where
  "journal sev msg st = st\<lparr>m_journal := m_journal st @ [(sev, msg)]\<rparr>"

text \<open>
  Modelled from the spec: \<^verbatim>\<open>ServiceQueue::dispatch\<close> is not in this file. The spec's
  section 5 has queued operations execute one at a time in FIFO submission order, so
  \<open>dispatch\<close> appends the handler at the back of the queue.
\<close>

definition dispatch :: "task \<Rightarrow> 'l manager \<Rightarrow> 'l manager" where
  "dispatch t st = st\<lparr>m_queue := m_queue st @ [t]\<rparr>"

text \<open>
  Modelled from the spec: \<^verbatim>\<open>DeadlineTimer::setExpiration\<close> is not in this file. It
  arms the timer with the given number of seconds.
\<close>

definition setExpiration :: "nat \<Rightarrow> 'l manager \<Rightarrow> 'l manager" where
  "setExpiration secs st = st\<lparr>m_checkTimer := Some secs\<rparr>"

text \<open>\<^verbatim>\<open>Stoppable::stopped ()\<close> and \<^verbatim>\<open>Thread::signalThreadShouldExit ()\<close>.\<close>

definition stopped :: "'l manager \<Rightarrow> 'l manager" where
  "stopped st = st\<lparr>stopped_called := True\<rparr>"

definition signalThreadShouldExit :: "'l manager \<Rightarrow> 'l manager" where
  "signalThreadShouldExit st = st\<lparr>threadShouldExit := True\<rparr>"

subsection \<open>Stoppable\<close>

text \<open>
  \<^verbatim>\<open>onStart\<close> and \<^verbatim>\<open>onStop\<close> write to the journal they are given, modelled as the
  same list of lines.
\<close>

definition onStart :: "'l manager \<Rightarrow> 'l manager" where
  "onStart st = (journal Info ''Starting Validators'' st)\<lparr>isThreadRunning := True\<rparr>"

definition onStop :: "'l manager \<Rightarrow> 'l manager" where
  "onStop st =
     (let st1 = journal Info ''Stopping Validators'' st in
      if isThreadRunning st1 then dispatch Bind_signalThreadShouldExit st1
      else stopped st1)"

subsection \<open>RPC::Service\<close>

definition rpcPrint :: "'l env \<Rightarrow> json \<Rightarrow> 'l manager \<Rightarrow> json \<times> 'l manager" where
  "rpcPrint env args st =
     (let (result, l) = Logic_rpcPrint env args (m_logic st) in (result, st\<lparr>m_logic := l\<rparr>))"

definition rpcRebuild :: "json \<Rightarrow> 'l manager \<Rightarrow> json \<times> 'l manager" where
  "rpcRebuild args st =
     (let st1 = dispatch Bind_Logic_buildChosen st;
          result = [(''chosen_list'', ''rebuilding'')]
      in (result, st1))"

definition rpcSources :: "'l env \<Rightarrow> json \<Rightarrow> 'l manager \<Rightarrow> json \<times> 'l manager" where
  "rpcSources env args st =
     (let (result, l) = Logic_rpcSources env args (m_logic st) in (result, st\<lparr>m_logic := l\<rparr>))"

subsection \<open>Adding sources\<close>

definition addSource :: "source \<Rightarrow> 'l manager \<Rightarrow> 'l manager" where
  "addSource src st = dispatch (Bind_Logic_add src) st"

definition addStaticSource :: "source \<Rightarrow> 'l manager \<Rightarrow> 'l manager" where
  "addStaticSource src st = dispatch (Bind_Logic_addStatic src) st"

text \<open>
  \<^verbatim>\<open>addStrings\<close>: the vector overload copies the strings in order into a
  \<^verbatim>\<open>StringArray\<close> and calls the other overload.
\<close>

definition addStrings :: "string \<Rightarrow> string list \<Rightarrow> 'l manager \<Rightarrow> 'l manager" where
  "addStrings name stringArray st = addStaticSource (SourceStrings name stringArray) st"

definition addStrings_vector :: "string \<Rightarrow> string list \<Rightarrow> 'l manager \<Rightarrow> 'l manager" where
  "addStrings_vector name strings st = addStrings name (fold (\<lambda>s arr. arr @ [s]) strings []) st"

definition addFile :: "string \<Rightarrow> 'l manager \<Rightarrow> 'l manager" where
  "addFile file st = addStaticSource (SourceFile file) st"

definition addURL :: "string \<Rightarrow> 'l manager \<Rightarrow> 'l manager" where
  "addURL url st = addSource (SourceURL url) st"

subsection \<open>Ingress from the network layer\<close>

definition receiveValidation :: "'l env \<Rightarrow> received_validation \<Rightarrow> 'l manager \<Rightarrow> 'l manager" where
  "receiveValidation env rv st =
     (if RIPPLE_USE_NEW_VALIDATORS env then
        (if \<not> isStopping st then dispatch (Bind_Logic_receiveValidation rv) st else st)
      else st)"

definition ledgerClosed :: "'l env \<Rightarrow> ledger_hash \<Rightarrow> 'l manager \<Rightarrow> 'l manager" where
  "ledgerClosed env ledgerHash st =
     (if RIPPLE_USE_NEW_VALIDATORS env then
        (if \<not> isStopping st then dispatch (Bind_Logic_ledgerClosed ledgerHash) st else st)
      else st)"

subsection \<open>Initialisation, the timer and the check of the sources\<close>

definition init :: "'l env \<Rightarrow> 'l manager \<Rightarrow> 'l manager" where
  "init env st =
     (let st1 = journal Trace ''Initializing'' st;
          file = validators_file env;
          st2 = journal Trace (''Opening database at '' @ [CHR 0x27] @ file @ [CHR 0x27]) st1;
          error = store_open_error env file;
          st3 = (if error then st2 else st2\<lparr>m_store := Some file\<rparr>);
          st4 = (if error
                 then journal Fatal (''Failed to open '' @ [CHR 0x27] @ file @ [CHR 0x27]) st3
                 else st3)
      in if \<not> error then st4\<lparr>m_logic := Logic_load env (m_logic st4)\<rparr> else st4)"

text \<open>
  \<open>is_checkTimer\<close> is the test \<^verbatim>\<open>timer == m_checkTimer\<close> on the timer that has
  expired.
\<close>

definition onDeadlineTimer :: "bool \<Rightarrow> 'l manager \<Rightarrow> 'l manager" where
  "onDeadlineTimer is_checkTimer st =
     (if is_checkTimer
      then dispatch Bind_setCheckSources (journal Trace ''Check timer signaled'' st)
      else st)"

definition setCheckSources :: "'l manager \<Rightarrow> 'l manager" where
  "setCheckSources st = st\<lparr>m_checkSources := True\<rparr>"

definition checkSources :: "'l env \<Rightarrow> 'l manager \<Rightarrow> 'l manager" where
  "checkSources env st =
     (if m_checkSources st then
        (let st1 = journal Trace ''Checking sources'' st;
             (remaining, l) = Logic_fetch_one env (m_logic st1);
             st2 = st1\<lparr>m_logic := l\<rparr>
         in if remaining = 0 then
              (let st3 = journal Trace ''Finished checking sources'' st2;
                   st4 = st3\<lparr>m_checkSources := False\<rparr>;
                   st5 = journal Trace (''Next check timer expires in '' @
                           show_seconds env (checkEverySeconds env)) st4
               in setExpiration (checkEverySeconds env) st5)
            else st2)
      else st)"

subsection \<open>The worker thread\<close>

text \<open>Running one queued handler: what each \<^verbatim>\<open>bind\<close> expression calls.\<close>

fun invoke :: "'l env \<Rightarrow> task \<Rightarrow> 'l manager \<Rightarrow> 'l manager" where
  "invoke env Bind_Logic_buildChosen st = st\<lparr>m_logic := Logic_buildChosen env (m_logic st)\<rparr>"
| "invoke env (Bind_Logic_add src) st = st\<lparr>m_logic := Logic_add env src (m_logic st)\<rparr>"
| "invoke env (Bind_Logic_addStatic src) st =
     st\<lparr>m_logic := Logic_addStatic env src (m_logic st)\<rparr>"
| "invoke env (Bind_Logic_receiveValidation rv) st =
     st\<lparr>m_logic := Logic_receiveValidation env rv (m_logic st)\<rparr>"
| "invoke env (Bind_Logic_ledgerClosed h) st =
     st\<lparr>m_logic := Logic_ledgerClosed env h (m_logic st)\<rparr>"
| "invoke env Bind_setCheckSources st = setCheckSources st"
| "invoke env Bind_signalThreadShouldExit st = signalThreadShouldExit st"

text \<open>
  Modelled from the spec: \<^verbatim>\<open>ServiceQueue::run_one\<close> is not in this file. It takes the
  oldest handler off the queue and runs it; on an empty queue it waits for a producer,
  which is the result \<open>None\<close>.
\<close>

definition run_one :: "'l env \<Rightarrow> 'l manager \<Rightarrow> 'l manager option" where
  "run_one env st =
     (case m_queue st of
        [] \<Rightarrow> None
      | t # q \<Rightarrow> Some (invoke env t (st\<lparr>m_queue := q\<rparr>)))"

text \<open>
  The loop of \<^verbatim>\<open>run\<close>, for the handlers that are in the queue when it starts: it
  ends in \<open>Exited\<close> after \<^verbatim>\<open>stopped ()\<close>, or in \<open>Waiting\<close> when \<^verbatim>\<open>run_one\<close> finds
  the queue empty and waits for a producer. No handler of this file enqueues another
  one, so each turn shortens the queue.
\<close>

datatype 'l run_result = Exited "'l manager" | Waiting "'l manager"

function run_loop :: "'l env \<Rightarrow> 'l manager \<Rightarrow> 'l run_result" where
  "run_loop env st =
     (if \<not> threadShouldExit st then
        (let st1 = checkSources env st in
         case run_one env st1 of
           None \<Rightarrow> Waiting st1
         | Some st2 \<Rightarrow> run_loop env st2)
      else Exited (stopped st))"
  by pat_completeness auto

lemma m_queue_invoke: "m_queue (invoke env t st) = m_queue st"
  by (cases t) (simp_all add: setCheckSources_def signalThreadShouldExit_def)

lemma m_queue_checkSources: "m_queue (checkSources env st) = m_queue st"
  by (simp add: checkSources_def journal_def setExpiration_def Let_def split: prod.splits)

termination run_loop
  apply (relation "measure (\<lambda>(env, st). length (m_queue st))")
   apply simp
  apply (auto simp: run_one_def m_queue_invoke m_queue_checkSources split: list.splits)
  done

definition run :: "'l env \<Rightarrow> 'l manager \<Rightarrow> 'l run_result" where
  "run env st = run_loop env (init env st)"

subsection \<open>The manager among its callers\<close>

text \<open>
  The external operations of the manager, called on the caller's thread: the three
  RPC handlers that \<^verbatim>\<open>addRPCHandlers\<close> registers, the two ways to add a source, and
  the two notifications from the network layer. \<open>handle\<close> gives the returned value,
  where the operation has one.
\<close>

datatype request =
    Rpc_print json
  | Rpc_rebuild json
  | Rpc_sources json
  | Add_source source
  | Add_static_source source
  | Receive_validation received_validation
  | Ledger_closed ledger_hash

fun handle :: "'l env \<Rightarrow> request \<Rightarrow> 'l manager \<Rightarrow> json option \<times> 'l manager" where
  "handle env (Rpc_print args) st = (let (r, st1) = rpcPrint env args st in (Some r, st1))"
| "handle env (Rpc_rebuild args) st = (let (r, st1) = rpcRebuild args st in (Some r, st1))"
| "handle env (Rpc_sources args) st = (let (r, st1) = rpcSources env args st in (Some r, st1))"
| "handle env (Add_source src) st = (None, addSource src st)"
| "handle env (Add_static_source src) st = (None, addStaticSource src st)"
| "handle env (Receive_validation rv) st = (None, receiveValidation env rv st)"
| "handle env (Ledger_closed h) st = (None, ledgerClosed env h st)"

text \<open>
  The worker thread in small steps, so that callers can run between them: it is
  before \<^verbatim>\<open>init\<close>, at the test of the \<^verbatim>\<open>while\<close> loop, inside \<^verbatim>\<open>run_one\<close>, or
  past \<^verbatim>\<open>stopped\<close>. A step at the loop test that enters the loop body runs
  \<^verbatim>\<open>checkSources\<close>; a step inside \<^verbatim>\<open>run_one\<close> runs the oldest handler, and
  changes nothing while the queue is empty.
\<close>

datatype pc = At_init | At_loop | At_run_one | At_end

fun worker_step :: "'l env \<Rightarrow> 'l manager \<times> pc \<Rightarrow> 'l manager \<times> pc" where
  "worker_step env (st, At_init) = (init env st, At_loop)"
| "worker_step env (st, At_loop) =
     (if \<not> threadShouldExit st then (checkSources env st, At_run_one)
      else (stopped st, At_end))"
| "worker_step env (st, At_run_one) =
     (case run_one env st of None \<Rightarrow> (st, At_run_one) | Some st1 \<Rightarrow> (st1, At_loop))"
| "worker_step env (st, At_end) = (st, At_end)"

text \<open>
  Modelled from the spec: \<^verbatim>\<open>DeadlineTimer\<close>, \<^verbatim>\<open>Thread\<close> and \<^verbatim>\<open>Stoppable\<close> are
  not in this file. What can happen to a manager: the parent starts it
  (\<^verbatim>\<open>onStart\<close>), a caller makes a request, the check timer expires, the parent
  stops it, or the worker thread takes a step. The worker runs once \<^verbatim>\<open>startThread\<close>
  has been called. The timer expires only when it is armed, is then no longer armed,
  and calls \<^verbatim>\<open>onDeadlineTimer\<close>; the parent's \<^verbatim>\<open>Stoppable\<close> makes
  \<^verbatim>\<open>isStopping\<close> true before it calls \<^verbatim>\<open>onStop\<close>.
\<close>

datatype event = Start | Call request | Timer_expires | Stop | Worker

fun sys_step :: "'l env \<Rightarrow> 'l manager \<times> pc \<Rightarrow> event \<Rightarrow> 'l manager \<times> pc" where
  "sys_step env (st, pc) Start = (onStart st, pc)"
| "sys_step env (st, pc) (Call rq) = (snd (handle env rq st), pc)"
| "sys_step env (st, pc) Timer_expires =
     (case m_checkTimer st of
        None \<Rightarrow> (st, pc)
      | Some secs \<Rightarrow> (onDeadlineTimer True (st\<lparr>m_checkTimer := None\<rparr>), pc))"
| "sys_step env (st, pc) Stop = (onStop (st\<lparr>isStopping := True\<rparr>), pc)"
| "sys_step env (st, pc) Worker =
     (if isThreadRunning st then worker_step env (st, pc) else (st, pc))"

definition sys_run :: "'l env \<Rightarrow> event list \<Rightarrow> 'l manager \<times> pc \<Rightarrow> 'l manager \<times> pc" where
  "sys_run env evs s = foldl (sys_step env) s evs"

subsection \<open>Recording the calls made on \<^verbatim>\<open>Logic\<close>\<close>

text \<open>
  To speak of which member functions of \<^verbatim>\<open>Logic\<close> the manager calls, and in which
  order, any \<^verbatim>\<open>Logic\<close> is paired with the list of the calls made on it so far:
  \<open>recording env\<close> behaves as \<open>env\<close> and appends each call to that list
  (\<^verbatim>\<open>fetch_one\<close> with the count it returned).
\<close>

datatype logic_call =
    Call_load
  | Call_fetch_one nat
  | Call_buildChosen
  | Call_add source
  | Call_addStatic source
  | Call_receiveValidation received_validation
  | Call_ledgerClosed ledger_hash
  | Call_rpcPrint json
  | Call_rpcSources json

definition recording :: "'l env \<Rightarrow> ('l \<times> logic_call list) env" where
  "recording env =
     \<lparr>checkEverySeconds = checkEverySeconds env,
      RIPPLE_USE_NEW_VALIDATORS = RIPPLE_USE_NEW_VALIDATORS env,
      validators_file = validators_file env,
      store_open_error = store_open_error env,
      show_seconds = show_seconds env,
      Logic_load = (\<lambda>(l, cs). (Logic_load env l, cs @ [Call_load])),
      Logic_fetch_one = (\<lambda>(l, cs).
         let (remaining, l1) = Logic_fetch_one env l
         in (remaining, (l1, cs @ [Call_fetch_one remaining]))),
      Logic_buildChosen = (\<lambda>(l, cs). (Logic_buildChosen env l, cs @ [Call_buildChosen])),
      Logic_add = (\<lambda>src (l, cs). (Logic_add env src l, cs @ [Call_add src])),
      Logic_addStatic = (\<lambda>src (l, cs). (Logic_addStatic env src l, cs @ [Call_addStatic src])),
      Logic_receiveValidation = (\<lambda>rv (l, cs).
         (Logic_receiveValidation env rv l, cs @ [Call_receiveValidation rv])),
      Logic_ledgerClosed = (\<lambda>h (l, cs). (Logic_ledgerClosed env h l, cs @ [Call_ledgerClosed h])),
      Logic_rpcPrint = (\<lambda>args (l, cs).
         let (r, l1) = Logic_rpcPrint env args l in (r, (l1, cs @ [Call_rpcPrint args]))),
      Logic_rpcSources = (\<lambda>args (l, cs).
         let (r, l1) = Logic_rpcSources env args l in (r, (l1, cs @ [Call_rpcSources args])))\<rparr>"

definition calls :: "('l \<times> logic_call list) manager \<Rightarrow> logic_call list" where
  "calls st = snd (m_logic st)"

text \<open>
  A small \<^verbatim>\<open>Logic\<close> to run the manager on: its state is the list of the sources it
  has been given, with the number of them already visited in the current pass.
  \<^verbatim>\<open>fetch_one\<close> visits the next one and returns how many are left; with no source
  at all, the pass is complete at once.
\<close>

definition example_fetch_one :: "source list \<times> nat \<Rightarrow> nat \<times> (source list \<times> nat)" where
  "example_fetch_one l =
     (case l of (srcs, visited) \<Rightarrow>
        if length srcs \<le> Suc visited then (0, (srcs, 0))
        else (length srcs - Suc visited, (srcs, Suc visited)))"

definition example_env :: "(source list \<times> nat) env" where
  "example_env =
     \<lparr>checkEverySeconds = 3600,
      RIPPLE_USE_NEW_VALIDATORS = True,
      validators_file = ''validators.sqlite'',
      store_open_error = (\<lambda>file. False),
      show_seconds = (\<lambda>n. ''some seconds''),
      Logic_load = (\<lambda>l. l),
      Logic_fetch_one = example_fetch_one,
      Logic_buildChosen = (\<lambda>l. l),
      Logic_add = (\<lambda>src (srcs, visited). (srcs @ [src], visited)),
      Logic_addStatic = (\<lambda>src l. l),
      Logic_receiveValidation = (\<lambda>rv l. l),
      Logic_ledgerClosed = (\<lambda>h l. l),
      Logic_rpcPrint = (\<lambda>args l. ([(''status'', ''ok'')], l)),
      Logic_rpcSources = (\<lambda>args l. ([(''sources'', ''listed'')], l))\<rparr>"

subsection \<open>Notions used to state the properties\<close>

text \<open>
  The call on \<^verbatim>\<open>Logic\<close> that running a handler makes (none for the two handlers
  bound to the manager itself), and the call that \<^verbatim>\<open>checkSources\<close> makes: one
  \<^verbatim>\<open>fetch_one\<close> when the check-flag is set, none otherwise.
\<close>

fun task_calls :: "task \<Rightarrow> logic_call list" where
  "task_calls Bind_Logic_buildChosen = [Call_buildChosen]"
| "task_calls (Bind_Logic_add src) = [Call_add src]"
| "task_calls (Bind_Logic_addStatic src) = [Call_addStatic src]"
| "task_calls (Bind_Logic_receiveValidation rv) = [Call_receiveValidation rv]"
| "task_calls (Bind_Logic_ledgerClosed h) = [Call_ledgerClosed h]"
| "task_calls Bind_setCheckSources = []"
| "task_calls Bind_signalThreadShouldExit = []"

definition fetch_calls :: "'l env \<Rightarrow> ('l \<times> logic_call list) manager \<Rightarrow> logic_call list" where
  "fetch_calls env st =
     (if m_checkSources st then [Call_fetch_one (fst (Logic_fetch_one env (fst (m_logic st))))]
      else [])"

fun final :: "'l run_result \<Rightarrow> 'l manager" where
  "final (Exited st) = st"
| "final (Waiting st) = st"





text \<open>
  The example with a store that cannot be opened, and a manager that has been started,
  has been given one URL source and has then been asked to stop.
\<close>

definition example_env_store_fails :: "(source list \<times> nat) env" where
  "example_env_store_fails = example_env\<lparr>store_open_error := (\<lambda>file. True)\<rparr>"

definition example_started :: "((source list \<times> nat) \<times> logic_call list) manager" where
  "example_started =
     fst (sys_run (recording example_env_store_fails)
            [Start, Call (Add_source (SourceURL ''https://example.org/validators'')), Stop]
            (ManagerImp (([], 0), []), At_init))"


section \<open>Logic: reconciliation and the Chosen set\<close>

text \<open>
  \<^verbatim>\<open>Logic\<close> is used by \<^verbatim>\<open>Manager.cpp\<close> but its code is not part of the sources at
  hand. What follows is written from the specification (sections 3, 4.3 and 4.5), for
  the properties that are about \<^verbatim>\<open>Logic\<close> itself.
\<close>

type_synonym identity = string
type_synonym source_id = string

text \<open>
  Modelled from the spec: the ValidatorRecord of \<^verbatim>\<open>Logic\<close>, which is not in the
  sources. Section 3 gives it the origin set, the participation score (rounds with a
  validation observed, out of the rounds observed), the count of validations that were
  never accepted, and the trust-worthiness flag. The known-validator table holds one
  record for each identity.
\<close>

record validator_record =
  origins :: "source_id set"
  participated :: nat
  rounds_observed :: nat
  wasted :: nat
  trusted :: bool

type_synonym validator_table = "(identity \<times> validator_record) list"

text \<open>
  Modelled from the spec: the three-way diff of \<^verbatim>\<open>Logic\<close>'s fetch, which is not in
  the sources. Section 3: three sets relative to the previously recorded membership,
  unchanged, newly appeared and newly removed.
\<close>

record fetch_diff =
  unchanged :: "identity list"
  newly_appeared :: "identity list"
  newly_removed :: "identity list"

text \<open>
  Modelled from the spec: computing the diff (step 1 of section 4.3; not in the
  sources), from the previous snapshot and the identities that the pull returned.
\<close>

definition diff :: "identity list \<Rightarrow> identity list \<Rightarrow> fetch_diff" where
  "diff old new =
     \<lparr>unchanged = filter (\<lambda>i. i \<in> set new) old,
      newly_appeared = filter (\<lambda>i. i \<notin> set old) new,
      newly_removed = filter (\<lambda>i. i \<notin> set new) old\<rparr>"

text \<open>
  Modelled from the spec: the record that reconciliation creates for an identity seen
  for the first time (not in the sources). It has the source as its only origin, an
  empty score and is trusted.
\<close>

definition created :: "source_id \<Rightarrow> validator_record" where
  "created src =
     \<lparr>origins = {src}, participated = 0, rounds_observed = 0, wasted = 0, trusted = True\<rparr>"

text \<open>
  Modelled from the spec: reactivating a known record (not in the sources). Section
  4.3, step 2: the source is added to the origin set; the record is trusted again and
  keeps its score.
\<close>

definition reactivated :: "source_id \<Rightarrow> validator_record \<Rightarrow> validator_record" where
  "reactivated src r = r\<lparr>origins := insert src (origins r), trusted := True\<rparr>"

text \<open>
  Modelled from the spec: a record losing an origin (not in the sources). Section 4.3,
  step 3: the source is removed from the origin set; if the origin set becomes empty
  the record is marked untrusted; its score history is retained.
\<close>

definition without_origin :: "source_id \<Rightarrow> validator_record \<Rightarrow> validator_record" where
  "without_origin src r =
     (let os = origins r - {src}
      in r\<lparr>origins := os, trusted := (if os = {} then False else trusted r)\<rparr>)"

text \<open>
  Modelled from the spec: step 2 of section 4.3 for one newly appeared identity (not
  in the sources): create its record or reactivate it.
\<close>

definition add_origin :: "source_id \<Rightarrow> identity \<Rightarrow> validator_table \<Rightarrow> validator_table" where
  "add_origin src i tbl =
     (case map_of tbl i of
        None \<Rightarrow> AList.update i (created src) tbl
      | Some r \<Rightarrow> AList.update i (reactivated src r) tbl)"

text \<open>
  Modelled from the spec: step 3 of section 4.3 for one newly removed identity (not in
  the sources).
\<close>

definition drop_origin :: "source_id \<Rightarrow> identity \<Rightarrow> validator_table \<Rightarrow> validator_table" where
  "drop_origin src i tbl =
     (case map_of tbl i of
        None \<Rightarrow> tbl
      | Some r \<Rightarrow> AList.update i (without_origin src r) tbl)"

text \<open>
  Modelled from the spec: the reconciliation of \<^verbatim>\<open>Logic\<close> (not in the sources),
  steps 2 and 3 of section 4.3 over the whole diff.
\<close>

definition reconcile :: "source_id \<Rightarrow> fetch_diff \<Rightarrow> validator_table \<Rightarrow> validator_table" where
  "reconcile src d tbl =
     fold (drop_origin src) (newly_removed d) (fold (add_origin src) (newly_appeared d) tbl)"

text \<open>
  Modelled from the spec: a Source as \<^verbatim>\<open>Logic\<close> holds it (not in the sources).
  Section 3: its identity, its kind, the outcome of the last fetch and its last-known
  membership snapshot. Section 4.1: a pull fails as transiently unavailable or with
  malformed content.
\<close>

datatype source_kind = StaticStrings | StaticFile | DynamicUrl

text \<open>
  Modelled from the spec: the two ways a pull fails (section 4.1; not in the sources).
\<close>

datatype fetch_error = Transient_unavailable | Malformed_content

text \<open>
  Modelled from the spec: the last-fetch outcome of a Source (sections 3 and 7; not in
  the sources).
\<close>

datatype fetch_outcome = Never_fetched | Fetch_succeeded | Fetch_unavailable | Degraded

text \<open>
  Modelled from the spec: the Source record itself (section 3; not in the sources).
\<close>

record source_state =
  source_name :: source_id
  kind :: source_kind
  snapshot :: "identity list"
  last_fetch :: fetch_outcome

text \<open>
  Modelled from the spec: the state of \<^verbatim>\<open>Logic\<close> that a fetch works on (not in the
  sources): the dynamic Sources in insertion order, which form the rotation, the
  round-robin cursor, the known-validator table, and what has been written to the
  Store.
\<close>

record logic_state =
  rotation :: "source_state list"
  cursor :: nat
  validators :: validator_table
  stored_snapshots :: "(source_id \<times> identity list) list"
  stored_validators :: validator_table

text \<open>
  Modelled from the spec: step 4 of section 4.3 (not in the sources), writing the
  touched records through to the Store.
\<close>

definition persist :: "identity list \<Rightarrow> validator_table \<Rightarrow> validator_table \<Rightarrow> validator_table" where
  "persist touched tbl stored =
     fold (\<lambda>i s. case map_of tbl i of None \<Rightarrow> s | Some r \<Rightarrow> AList.update i r s) touched stored"

text \<open>
  Modelled from the spec: what \<^verbatim>\<open>fetchOne\<close> does after a successful pull of the
  Source at position \<open>k\<close> (not in the sources), steps 1 to 4 of section 4.3.
\<close>

definition pull_succeeded :: "nat \<Rightarrow> identity list \<Rightarrow> logic_state \<Rightarrow> logic_state" where
  "pull_succeeded k ids st =
     (let src = rotation st ! k;
          d = diff (snapshot src) ids;
          tbl = reconcile (source_name src) d (validators st)
      in st\<lparr>rotation := (rotation st)[k := src\<lparr>snapshot := ids, last_fetch := Fetch_succeeded\<rparr>],
            validators := tbl,
            stored_snapshots := AList.update (source_name src) ids (stored_snapshots st),
            stored_validators :=
              persist (newly_appeared d @ newly_removed d) tbl (stored_validators st)\<rparr>)"

text \<open>
  Modelled from the spec: what \<^verbatim>\<open>fetchOne\<close> does after a failed pull (not in the
  sources). Sections 4.3 and 7: the failure is recorded as the Source's last-fetch
  outcome (a Source with malformed content is flagged degraded) and nothing else is
  touched.
\<close>

definition pull_failed :: "nat \<Rightarrow> fetch_error \<Rightarrow> logic_state \<Rightarrow> logic_state" where
  "pull_failed k e st =
     (let src = rotation st ! k;
          outcome = (case e of Transient_unavailable \<Rightarrow> Fetch_unavailable
                             | Malformed_content \<Rightarrow> Degraded)
      in st\<lparr>rotation := (rotation st)[k := src\<lparr>last_fetch := outcome\<rparr>]\<rparr>)"

text \<open>
  Modelled from the spec: the position of the Source that the cursor points at (not in
  the sources); a cursor outside the rotation starts a new pass.
\<close>

definition current :: "logic_state \<Rightarrow> nat" where
  "current st = (if cursor st < length (rotation st) then cursor st else 0)"

text \<open>
  Modelled from the spec: \<^verbatim>\<open>Logic\<close>'s fetch-one (not in the sources). Section 4.3:
  it pulls exactly one Source, the one at the cursor, reconciles on success, advances
  the cursor whether or not the pull succeeded, and returns the number of Sources not
  yet visited in the current rotation. \<open>pull\<close> is the Source's pull operation.
\<close>

definition fetchOne ::
  "(source_state \<Rightarrow> fetch_error + identity list) \<Rightarrow> logic_state \<Rightarrow> nat \<times> logic_state" where
  "fetchOne pull st =
     (let n = length (rotation st) in
      if n = 0 then (0, st)
      else
        (let k = current st;
             st1 = (case pull (rotation st ! k) of
                      Inl e \<Rightarrow> pull_failed k e st
                    | Inr ids \<Rightarrow> pull_succeeded k ids st);
             remaining = n - Suc k
         in (remaining, st1\<lparr>cursor := (if remaining = 0 then 0 else Suc k)\<rparr>)))"

type_synonym seed = nat

text \<open>
  Modelled from the spec: the known-validator table filtered to trust-worthiness true
  (section 4.5; not in the sources).
\<close>

definition trusted_population :: "validator_table \<Rightarrow> validator_table" where
  "trusted_population tbl = filter (\<lambda>(i, r). trusted r) tbl"

text \<open>
  Modelled from the spec: one weighted draw (not in the sources). The roll is compared
  with the running sum of the weights; the last candidate takes what is left.
\<close>

fun pick :: "nat \<Rightarrow> (identity \<times> nat) list \<Rightarrow> nat" where
  "pick roll [] = 0"
| "pick roll [c] = 0"
| "pick roll (c # c1 # cs) = (if roll < snd c then 0 else Suc (pick (roll - snd c) (c1 # cs)))"

text \<open>
  Modelled from the spec: weighted pseudo-random sampling without replacement (section
  4.5; not in the sources). Each draw takes a number from the generator, picks one
  candidate by weight and removes it from the candidates.
\<close>

fun sample ::
  "(seed \<Rightarrow> nat \<times> seed) \<Rightarrow> nat \<Rightarrow> seed \<Rightarrow> (identity \<times> nat) list \<Rightarrow> identity list" where
  "sample rng 0 s cands = []"
| "sample rng (Suc n) s cands =
     (if cands = [] then []
      else
        (let (r, s1) = rng s;
             total = sum_list (map snd cands);
             k = pick (if total = 0 then 0 else r mod total) cands
         in fst (cands ! k) # sample rng n s1 (take k cands @ drop (Suc k) cands)))"

text \<open>
  Modelled from the spec: \<^verbatim>\<open>Logic::buildChosen\<close> (not in the sources). Section 4.5:
  if the trusted population is at most the target count, the Chosen set is that
  population; otherwise it is a weighted sample of exactly the target count. The
  weight, a function of the participation score that the spec leaves open, and the
  generator are parameters.
\<close>

definition buildChosen ::
  "(validator_record \<Rightarrow> nat) \<Rightarrow> (seed \<Rightarrow> nat \<times> seed) \<Rightarrow> nat \<Rightarrow> seed \<Rightarrow> validator_table
     \<Rightarrow> identity list" where
  "buildChosen weight rng target s tbl =
     (let population = trusted_population tbl in
      if length population \<le> target then map fst population
      else sample rng target s (map (\<lambda>(i, r). (i, weight r)) population))"

subsection \<open>Examples for \<^verbatim>\<open>Logic\<close>\<close>

definition example_table :: validator_table where
  "example_table =
     [(''alice'', \<lparr>origins = {''list-1''}, participated = 9, rounds_observed = 10, wasted = 0,
                  trusted = True\<rparr>),
      (''bob'', \<lparr>origins = {''list-1'', ''list-2''}, participated = 5, rounds_observed = 10,
                wasted = 1, trusted = True\<rparr>),
      (''carol'', \<lparr>origins = {}, participated = 7, rounds_observed = 10, wasted = 0,
                  trusted = False\<rparr>),
      (''dave'', \<lparr>origins = {''list-2''}, participated = 2, rounds_observed = 10, wasted = 3,
                 trusted = True\<rparr>)]"

definition example_rng :: "seed \<Rightarrow> nat \<times> seed" where
  "example_rng s = ((5 * s + 3) mod 16, (5 * s + 3) mod 16)"

definition example_old :: "identity list" where
  "example_old = [''alice'', ''bob'', ''carol'']"

definition example_new :: "identity list" where
  "example_new = [''bob'', ''carol'', ''dave'']"

definition example_before :: validator_table where
  "example_before =
     [(''alice'', \<lparr>origins = {''list-1''}, participated = 9, rounds_observed = 10, wasted = 0,
                  trusted = True\<rparr>),
      (''bob'', \<lparr>origins = {''list-1'', ''list-2''}, participated = 5, rounds_observed = 10,
                wasted = 1, trusted = True\<rparr>),
      (''carol'', \<lparr>origins = {''list-1''}, participated = 7, rounds_observed = 10, wasted = 0,
                  trusted = True\<rparr>)]"

definition example_pull :: "source_state \<Rightarrow> fetch_error + identity list" where
  "example_pull src =
     (if source_name src = ''list-1'' then Inl Transient_unavailable
      else if source_name src = ''list-2'' then Inl Malformed_content
      else Inr example_new)"

definition example_logic :: logic_state where
  "example_logic =
     \<lparr>rotation =
        [\<lparr>source_name = ''list-1'', kind = DynamicUrl, snapshot = example_old,
          last_fetch = Fetch_succeeded\<rparr>,
         \<lparr>source_name = ''list-2'', kind = DynamicUrl, snapshot = [''bob''],
          last_fetch = Fetch_succeeded\<rparr>],
      cursor = 0, validators = example_before, stored_snapshots = [],
      stored_validators = example_before\<rparr>"

section \<open>Properties of the scheduling shell\<close>

lemmas manager_ops =
  journal_def dispatch_def setExpiration_def stopped_def signalThreadShouldExit_def
  setCheckSources_def

text \<open>
  C1. \<^verbatim>\<open>checkSources\<close> calls \<^verbatim>\<open>fetch_one\<close> when the check-flag is set, and only
  then. When the call returns 0 the flag is cleared and the check timer is armed with
  \<open>checkEverySeconds\<close>; when it returns another count the flag stays set and the timer
  is left as it was. With the flag not set nothing changes at all.
\<close>

theorem checkSources_flag_and_timer:
  "case Logic_fetch_one env (m_logic st) of (remaining, l) \<Rightarrow>
     if m_checkSources st then
       m_logic (checkSources env st) = l \<and>
       (m_checkSources (checkSources env st) \<longleftrightarrow> remaining \<noteq> 0) \<and>
       m_checkTimer (checkSources env st) =
         (if remaining = 0 then Some (checkEverySeconds env) else m_checkTimer st)
     else checkSources env st = st"
  by (simp add: checkSources_def manager_ops Let_def split: prod.splits)

text \<open>
  With two sources, the first call leaves one source to visit: the flag stays set and
  the timer is not armed. The second call completes the pass.
\<close>

theorem checkSources_flag_and_timer_witness:
  "m_checkSources (checkSources example_env (ManagerImp ([SourceURL ''a'', SourceURL ''b''], 0))) \<and>
   m_checkTimer (checkSources example_env (ManagerImp ([SourceURL ''a'', SourceURL ''b''], 0))) = None \<and>
   \<not> m_checkSources (checkSources example_env (ManagerImp ([SourceURL ''a'', SourceURL ''b''], 1))) \<and>
   m_checkTimer (checkSources example_env (ManagerImp ([SourceURL ''a'', SourceURL ''b''], 1))) = Some 3600"
  using checkSources_flag_and_timer
      [where env = example_env and st = "ManagerImp ([SourceURL ''a'', SourceURL ''b''], 0)"]
    checkSources_flag_and_timer
      [where env = example_env and st = "ManagerImp ([SourceURL ''a'', SourceURL ''b''], 1)"]
  by (simp add: example_env_def example_fetch_one_def ManagerImp_def)

text \<open>
  C9. \<^verbatim>\<open>rpcRebuild\<close> returns the acknowledgement \<^verbatim>\<open>chosen_list: rebuilding\<close> and
  changes the manager only by appending the handler for \<^verbatim>\<open>Logic::buildChosen\<close> to
  the queue: \<^verbatim>\<open>Logic\<close> is as before and no call has been made on it.
  \<^verbatim>\<open>buildChosen\<close> runs when the worker takes the handler off the queue.
\<close>

theorem rpcRebuild_schedules_and_acknowledges:
  "fst (rpcRebuild args st) = [(''chosen_list'', ''rebuilding'')] \<and>
   snd (rpcRebuild args st) = st\<lparr>m_queue := m_queue st @ [Bind_Logic_buildChosen]\<rparr> \<and>
   m_logic (snd (rpcRebuild args st)) = m_logic st \<and>
   calls (snd (handle (recording env) (Rpc_rebuild args) rst)) = calls rst \<and>
   run_one env (snd (rpcRebuild args (st\<lparr>m_queue := []\<rparr>))) =
     Some (st\<lparr>m_queue := [], m_logic := Logic_buildChosen env (m_logic st)\<rparr>)"
  by (simp add: rpcRebuild_def manager_ops Let_def calls_def run_one_def)

subsection \<open>What each operation leaves unchanged\<close>

lemma handle_frame:
  "m_checkSources (snd (handle env rq st)) = m_checkSources st \<and>
   m_checkTimer (snd (handle env rq st)) = m_checkTimer st \<and>
   m_journal (snd (handle env rq st)) = m_journal st \<and>
   isThreadRunning (snd (handle env rq st)) = isThreadRunning st \<and>
   threadShouldExit (snd (handle env rq st)) = threadShouldExit st"
  by (cases rq)
     (simp_all add: rpcPrint_def rpcRebuild_def rpcSources_def addSource_def
        addStaticSource_def receiveValidation_def ledgerClosed_def dispatch_def Let_def
        split: prod.splits)

lemma invoke_frame:
  "m_checkTimer (invoke env t st) = m_checkTimer st \<and>
   m_journal (invoke env t st) = m_journal st \<and>
   m_checkSources (invoke env t st) = (t = Bind_setCheckSources \<or> m_checkSources st)"
  by (cases t) (simp_all add: setCheckSources_def signalThreadShouldExit_def)

lemma init_frame:
  "m_checkSources (init env st) = m_checkSources st \<and>
   m_checkTimer (init env st) = m_checkTimer st \<and>
   m_queue (init env st) = m_queue st"
  by (simp add: init_def journal_def Let_def)

lemma run_loop_step:
  "run_loop env st =
     (if threadShouldExit st then Exited (stopped st)
      else case m_queue st of
        [] \<Rightarrow> Waiting (checkSources env st)
      | t # q \<Rightarrow> run_loop env (invoke env t ((checkSources env st)\<lparr>m_queue := q\<rparr>)))"
  by (subst run_loop.simps)
     (simp add: run_one_def m_queue_checkSources Let_def split: list.splits)

lemma calls_invoke: "calls (invoke (recording env) t st) = calls st @ task_calls t"
  by (cases t)
     (simp_all add: calls_def recording_def setCheckSources_def signalThreadShouldExit_def
        split: prod.splits)

lemma calls_checkSources:
  "calls (checkSources (recording env) st) = calls st @ fetch_calls env st"
  by (auto simp: checkSources_def fetch_calls_def calls_def recording_def manager_ops Let_def
      split: prod.splits)

lemma calls_m_queue_update: "calls (st\<lparr>m_queue := q\<rparr>) = calls st"
  by (simp add: calls_def)

subsection \<open>External operations\<close>

text \<open>
  C2 does not hold as stated: \<^verbatim>\<open>rpcPrint\<close> enqueues nothing and calls
  \<^verbatim>\<open>Logic::rpcPrint\<close> on the caller's thread. Here the queue is still empty after
  the request, and the call on \<^verbatim>\<open>Logic\<close> has been made.
\<close>

theorem rpcPrint_calls_Logic_inline:
  "m_queue (snd (handle (recording example_env) (Rpc_print []) (ManagerImp (([], 0), [])))) = [] \<and>
   calls (snd (handle (recording example_env) (Rpc_print []) (ManagerImp (([], 0), [])))) =
     [Call_rpcPrint []]"
  by (simp add: rpcPrint_def recording_def example_env_def ManagerImp_def calls_def)

text \<open>
  C2, amended. \<^verbatim>\<open>rpcRebuild\<close> enqueues one handler. \<^verbatim>\<open>receiveValidation\<close> and
  \<^verbatim>\<open>ledgerClosed\<close> enqueue one handler when \<^verbatim>\<open>RIPPLE_USE_NEW_VALIDATORS\<close> is on and
  the manager is not stopping, and do nothing otherwise. Enqueueing leaves \<^verbatim>\<open>Logic\<close>
  untouched. The queries \<^verbatim>\<open>rpcPrint\<close> and \<^verbatim>\<open>rpcSources\<close> enqueue nothing: they call
  \<^verbatim>\<open>Logic::rpcPrint\<close> and \<^verbatim>\<open>Logic::rpcSources\<close> inline and return their results.
\<close>

theorem external_operations_enqueue_or_call_inline:
  "snd (rpcRebuild args st) = dispatch Bind_Logic_buildChosen st \<and>
   receiveValidation env rv st =
     (if RIPPLE_USE_NEW_VALIDATORS env \<and> \<not> isStopping st
      then dispatch (Bind_Logic_receiveValidation rv) st else st) \<and>
   ledgerClosed env h st =
     (if RIPPLE_USE_NEW_VALIDATORS env \<and> \<not> isStopping st
      then dispatch (Bind_Logic_ledgerClosed h) st else st) \<and>
   m_logic (dispatch t st) = m_logic st \<and>
   rpcPrint env args st =
     (fst (Logic_rpcPrint env args (m_logic st)),
      st\<lparr>m_logic := snd (Logic_rpcPrint env args (m_logic st))\<rparr>) \<and>
   rpcSources env args st =
     (fst (Logic_rpcSources env args (m_logic st)),
      st\<lparr>m_logic := snd (Logic_rpcSources env args (m_logic st))\<rparr>) \<and>
   m_queue (snd (rpcPrint env args st)) = m_queue st \<and>
   m_queue (snd (rpcSources env args st)) = m_queue st \<and>
   calls (snd (rpcPrint (recording env) args rst)) = calls rst @ [Call_rpcPrint args] \<and>
   calls (snd (rpcSources (recording env) args rst)) = calls rst @ [Call_rpcSources args]"
  by (simp add: rpcRebuild_def receiveValidation_def ledgerClosed_def rpcPrint_def
      rpcSources_def dispatch_def calls_def recording_def Let_def split: prod.splits)

subsection \<open>Start-up with a store that cannot be opened\<close>

text \<open>
  C3 does not hold as stated: \<^verbatim>\<open>init\<close> returns nothing to \<^verbatim>\<open>run\<close>, which enters
  its loop whatever happened to the store. In the example the store cannot be opened
  and two handlers are queued; \<^verbatim>\<open>run\<close> ends with an empty queue, after
  \<^verbatim>\<open>Logic::fetch_one\<close> and \<^verbatim>\<open>Logic::add\<close> have been called, and the store is still
  not open.
\<close>

theorem worker_runs_after_failed_open:
  "store_open_error example_env_store_fails (validators_file example_env_store_fails) \<and>
   m_queue example_started =
     [Bind_Logic_add (SourceURL ''https://example.org/validators''),
      Bind_signalThreadShouldExit] \<and>
   m_queue (final (run (recording example_env_store_fails) example_started)) = [] \<and>
   calls (final (run (recording example_env_store_fails) example_started)) =
     [Call_fetch_one 0, Call_add (SourceURL ''https://example.org/validators'')] \<and>
   m_store (final (run (recording example_env_store_fails) example_started)) = None"
  by code_simp

text \<open>
  C3, amended. When the store cannot be opened, \<^verbatim>\<open>init\<close> reports it with a line of
  severity fatal and changes nothing else: the store stays closed and \<^verbatim>\<open>Logic::load\<close>
  is not called. \<^verbatim>\<open>run\<close> then goes through its loop as it always does: unless the
  thread has been told to exit it calls \<^verbatim>\<open>checkSources\<close> and runs the oldest queued
  handler.
\<close>

theorem failed_open_is_reported_and_worker_runs:
  assumes "store_open_error env (validators_file env)"
  shows "init env st =
           st\<lparr>m_journal := m_journal st @
             [(Trace, ''Initializing''),
              (Trace, ''Opening database at '' @ [CHR 0x27] @ validators_file env @ [CHR 0x27]),
              (Fatal, ''Failed to open '' @ [CHR 0x27] @ validators_file env @ [CHR 0x27])]\<rparr> \<and>
         calls (init (recording env) rst) = calls rst \<and>
         run env st =
           (if threadShouldExit st then Exited (stopped (init env st))
            else case m_queue st of
              [] \<Rightarrow> Waiting (checkSources env (init env st))
            | t # q \<Rightarrow>
                run_loop env (invoke env t ((checkSources env (init env st))\<lparr>m_queue := q\<rparr>)))"
proof -
  have 1: "init env st =
           st\<lparr>m_journal := m_journal st @
             [(Trace, ''Initializing''),
              (Trace, ''Opening database at '' @ [CHR 0x27] @ validators_file env @ [CHR 0x27]),
              (Fatal, ''Failed to open '' @ [CHR 0x27] @ validators_file env @ [CHR 0x27])]\<rparr>"
    using assms by (simp add: init_def journal_def Let_def)
  have 2: "calls (init (recording env) rst) = calls rst"
    using assms by (simp add: init_def journal_def Let_def calls_def recording_def)
  have 3: "run env st =
           (if threadShouldExit st then Exited (stopped (init env st))
            else case m_queue st of
              [] \<Rightarrow> Waiting (checkSources env (init env st))
            | t # q \<Rightarrow>
                run_loop env (invoke env t ((checkSources env (init env st))\<lparr>m_queue := q\<rparr>)))"
    unfolding run_def by (subst run_loop_step) (simp add: 1)
  from 1 2 3 show ?thesis by blast
qed

theorem failed_open_is_reported_and_worker_runs_witness:
  "store_open_error example_env_store_fails (validators_file example_env_store_fails) \<and>
   m_journal (init example_env_store_fails (ManagerImp ([], 0))) =
     [(Trace, ''Initializing''),
      (Trace, ''Opening database at '' @ [CHR 0x27] @ ''validators.sqlite'' @ [CHR 0x27]),
      (Fatal, ''Failed to open '' @ [CHR 0x27] @ ''validators.sqlite'' @ [CHR 0x27])] \<and>
   run example_env_store_fails (ManagerImp ([], 0)) =
     Waiting (checkSources example_env_store_fails
                (init example_env_store_fails (ManagerImp ([], 0))))"
proof -
  have h: "store_open_error example_env_store_fails (validators_file example_env_store_fails)"
    by (simp add: example_env_store_fails_def)
  have v: "validators_file example_env_store_fails = ''validators.sqlite''"
    by (simp add: example_env_store_fails_def example_env_def)
  show ?thesis
    using h v
      failed_open_is_reported_and_worker_runs
        [OF h, where st = "ManagerImp ([], 0)" and rst = "ManagerImp (([], 0), [])"]
    by (simp add: ManagerImp_def)
qed

subsection \<open>Who changes the check-flag\<close>

lemma checkSources_cleared:
  "m_checkSources st \<Longrightarrow> \<not> m_checkSources (checkSources env st) \<Longrightarrow>
     fst (Logic_fetch_one env (m_logic st)) = 0"
  by (simp add: checkSources_def manager_ops Let_def split: prod.splits if_splits)

lemma sys_step_cleared:
  assumes "m_checkSources st" and "\<not> m_checkSources (fst (sys_step env (st, pc) ev))"
  shows "ev = Worker \<and> pc = At_loop \<and> isThreadRunning st \<and> \<not> threadShouldExit st \<and>
         fst (Logic_fetch_one env (m_logic st)) = 0"
proof (cases ev)
  case Start
  with assms show ?thesis by (simp add: onStart_def journal_def)
next
  case (Call rq)
  with assms show ?thesis by (simp add: handle_frame)
next
  case Timer_expires
  with assms show ?thesis
    by (simp add: onDeadlineTimer_def manager_ops split: option.splits)
next
  case Stop
  with assms show ?thesis by (simp add: onStop_def manager_ops Let_def split: if_splits)
next
  case Worker
  show ?thesis
  proof (cases pc)
    case At_init
    with Worker assms show ?thesis by (simp add: init_frame split: if_splits)
  next
    case At_loop
    with Worker assms show ?thesis
      by (auto simp: stopped_def dest: checkSources_cleared split: if_splits)
  next
    case At_run_one
    with Worker assms show ?thesis
      by (auto simp: run_one_def invoke_frame split: if_splits list.splits)
  next
    case At_end
    with Worker assms show ?thesis by (simp split: if_splits)
  qed
qed

lemma requests_keep_flag:
  "m_checkSources (foldl (\<lambda>s rq. snd (handle env rq s)) st rqs) = m_checkSources st"
  by (induction rqs arbitrary: st) (simp_all add: handle_frame)

text \<open>
  C4. Rebuild, adding a source, receiving a validation and a ledger close leave the
  check-flag as it was, both when the caller makes the request and when the worker
  runs the handler that the request enqueued; so does any sequence of requests. In
  the whole system the only step that takes the flag from set to cleared is the
  worker's \<^verbatim>\<open>checkSources\<close>, when \<^verbatim>\<open>fetch_one\<close> returns 0.
\<close>

theorem check_flag_persists_until_pass_completes:
  "m_checkSources (snd (rpcRebuild args st)) = m_checkSources st \<and>
   m_checkSources (addSource src st) = m_checkSources st \<and>
   m_checkSources (addStaticSource src st) = m_checkSources st \<and>
   m_checkSources (receiveValidation env rv st) = m_checkSources st \<and>
   m_checkSources (ledgerClosed env h st) = m_checkSources st \<and>
   m_checkSources (invoke env Bind_Logic_buildChosen st) = m_checkSources st \<and>
   m_checkSources (invoke env (Bind_Logic_add src) st) = m_checkSources st \<and>
   m_checkSources (invoke env (Bind_Logic_addStatic src) st) = m_checkSources st \<and>
   m_checkSources (invoke env (Bind_Logic_receiveValidation rv) st) = m_checkSources st \<and>
   m_checkSources (invoke env (Bind_Logic_ledgerClosed h) st) = m_checkSources st \<and>
   m_checkSources (foldl (\<lambda>s rq. snd (handle env rq s)) st rqs) = m_checkSources st \<and>
   (m_checkSources st \<and> \<not> m_checkSources (fst (sys_step env (st, pc) ev)) \<longrightarrow>
      ev = Worker \<and> pc = At_loop \<and> fst (Logic_fetch_one env (m_logic st)) = 0)"
proof -
  have "m_checkSources st \<and> \<not> m_checkSources (fst (sys_step env (st, pc) ev)) \<longrightarrow>
      ev = Worker \<and> pc = At_loop \<and> fst (Logic_fetch_one env (m_logic st)) = 0"
    using sys_step_cleared [of st env pc ev] by blast
  then show ?thesis
    by (simp add: rpcRebuild_def addSource_def addStaticSource_def receiveValidation_def
        ledgerClosed_def dispatch_def Let_def requests_keep_flag)
qed

text \<open>
  A started manager with no source yet: the worker's \<^verbatim>\<open>checkSources\<close> finds the pass
  complete and clears the flag, which a rebuild request had left set.
\<close>

theorem check_flag_persists_until_pass_completes_witness:
  "m_checkSources (snd (rpcRebuild [] (onStart (ManagerImp ([], 0))))) \<and>
   \<not> m_checkSources (fst (sys_step example_env
        (snd (rpcRebuild [] (onStart (ManagerImp ([], 0)))), At_loop) Worker)) \<and>
   fst (Logic_fetch_one example_env
        (m_logic (snd (rpcRebuild [] (onStart (ManagerImp ([], 0))))))) = 0"
  using check_flag_persists_until_pass_completes
    [where env = example_env and st = "snd (rpcRebuild [] (onStart (ManagerImp ([], 0))))"
       and pc = At_loop and ev = Worker]
  by (simp add: rpcRebuild_def onStart_def ManagerImp_def manager_ops checkSources_def
      example_env_def example_fetch_one_def Let_def)

subsection \<open>One turn of the worker loop\<close>

text \<open>
  C5. Each turn of the loop of \<^verbatim>\<open>run\<close> calls \<^verbatim>\<open>checkSources\<close> once and then runs
  exactly one handler, the oldest, which leaves the queue (with an empty queue the
  worker waits inside \<^verbatim>\<open>run_one\<close>). The calls made on \<^verbatim>\<open>Logic\<close> in the turn are at
  most one \<^verbatim>\<open>fetch_one\<close>, made only when the check-flag is set, followed by the call
  of that one handler.
\<close>

theorem one_fetch_and_one_handler_per_turn:
  "run_loop env st =
     (if threadShouldExit st then Exited (stopped st)
      else case m_queue st of
        [] \<Rightarrow> Waiting (checkSources env st)
      | t # q \<Rightarrow> run_loop env (invoke env t ((checkSources env st)\<lparr>m_queue := q\<rparr>))) \<and>
   (case m_queue rst of
      [] \<Rightarrow> run_one (recording env) (checkSources (recording env) rst) = None
    | t # q \<Rightarrow>
        (\<exists>rst1. run_one (recording env) (checkSources (recording env) rst) = Some rst1 \<and>
           m_queue rst1 = q \<and>
           calls rst1 = calls rst @ fetch_calls env rst @ task_calls t)) \<and>
   fetch_calls env rst =
     (if m_checkSources rst
      then [Call_fetch_one (fst (Logic_fetch_one env (fst (m_logic rst))))] else []) \<and>
   length (fetch_calls env rst) \<le> 1 \<and> length (task_calls t1) \<le> 1"
proof -
  have 1: "run_loop env st =
     (if threadShouldExit st then Exited (stopped st)
      else case m_queue st of
        [] \<Rightarrow> Waiting (checkSources env st)
      | t # q \<Rightarrow> run_loop env (invoke env t ((checkSources env st)\<lparr>m_queue := q\<rparr>)))"
    by (rule run_loop_step)
  have 2: "case m_queue rst of
      [] \<Rightarrow> run_one (recording env) (checkSources (recording env) rst) = None
    | t # q \<Rightarrow>
        (\<exists>rst1. run_one (recording env) (checkSources (recording env) rst) = Some rst1 \<and>
           m_queue rst1 = q \<and>
           calls rst1 = calls rst @ fetch_calls env rst @ task_calls t)"
    by (simp add: run_one_def m_queue_checkSources m_queue_invoke calls_invoke
        calls_checkSources calls_m_queue_update split: list.splits)
  have 3: "length (fetch_calls env rst) \<le> 1" by (simp add: fetch_calls_def)
  have 4: "length (task_calls t1) \<le> 1" by (cases t1) simp_all
  have 5: "fetch_calls env rst =
     (if m_checkSources rst
      then [Call_fetch_one (fst (Logic_fetch_one env (fst (m_logic rst))))] else [])"
    by (simp add: fetch_calls_def)
  from 1 2 3 4 5 show ?thesis by blast
qed

subsection \<open>The first pass and the timer\<close>
















section \<open>Properties of Logic as specified\<close>

subsection \<open>Reconciliation\<close>

lemma map_of_add_origin:
  "map_of (add_origin src i tbl) =
     (map_of tbl)(i \<mapsto> (case map_of tbl i of None \<Rightarrow> created src | Some r \<Rightarrow> reactivated src r))"
  by (simp add: add_origin_def update_conv' split: option.splits)

lemma map_of_drop_origin:
  "map_of (drop_origin src i tbl) j =
     (if j = i then map_option (without_origin src) (map_of tbl i) else map_of tbl j)"
  by (simp add: drop_origin_def update_conv' split: option.splits)

lemma reactivated_idem: "reactivated src (reactivated src r) = reactivated src r"
  by (simp add: reactivated_def)

lemma reactivated_created: "reactivated src (created src) = created src"
  by (simp add: reactivated_def created_def)

lemma without_origin_idem: "without_origin src (without_origin src r) = without_origin src r"
  by (simp add: without_origin_def Let_def)

lemma map_of_fold_add_origin:
  "map_of (fold (add_origin src) xs tbl) j =
     (if j \<in> set xs
      then Some (case map_of tbl j of None \<Rightarrow> created src | Some r \<Rightarrow> reactivated src r)
      else map_of tbl j)"
proof (induction xs arbitrary: tbl)
  case Nil
  then show ?case by simp
next
  case (Cons x xs)
  show ?case
    by (simp add: Cons.IH map_of_add_origin reactivated_idem reactivated_created
        split: option.splits)
qed

lemma map_of_fold_drop_origin:
  "map_of (fold (drop_origin src) xs tbl) j =
     (if j \<in> set xs then map_option (without_origin src) (map_of tbl j) else map_of tbl j)"
proof (induction xs arbitrary: tbl)
  case Nil
  then show ?case by simp
next
  case (Cons x xs)
  show ?case
    by (simp add: Cons.IH map_of_drop_origin without_origin_idem option.map_comp comp_def
        split: option.splits)
qed

lemma map_of_reconcile:
  "map_of (reconcile src (diff old new) tbl) j =
     (if j \<in> set new - set old
      then Some (case map_of tbl j of None \<Rightarrow> created src | Some r \<Rightarrow> reactivated src r)
      else if j \<in> set old - set new then map_option (without_origin src) (map_of tbl j)
      else map_of tbl j)"
  by (auto simp: reconcile_def diff_def map_of_fold_drop_origin map_of_fold_add_origin)

text \<open>
  C7. The diff of the previous snapshot and a successful pull consists of the
  identities in both, the identities only in the pull and the identities only in the
  previous snapshot. After reconciliation each newly appeared identity has a record,
  created or reactivated, with the Source among its origins and trusted; each newly
  removed identity that has a record has lost the Source from its origins, is
  untrusted when no origin is left, and has kept its score; every other identity has
  the record it had. A successful pull in \<^verbatim>\<open>fetchOne\<close> reconciles the table in this
  way and replaces the snapshot of the Source pulled.
\<close>

theorem reconcile_three_way_diff:
  "set (unchanged (diff old new)) = set old \<inter> set new \<and>
   set (newly_appeared (diff old new)) = set new - set old \<and>
   set (newly_removed (diff old new)) = set old - set new \<and>
   (\<forall>i \<in> set (newly_appeared (diff old new)).
      map_of (reconcile src (diff old new) tbl) i =
        Some (case map_of tbl i of None \<Rightarrow> created src | Some r \<Rightarrow> reactivated src r)) \<and>
   (\<forall>i \<in> set (newly_removed (diff old new)).
      map_of (reconcile src (diff old new) tbl) i =
        map_option (without_origin src) (map_of tbl i)) \<and>
   (\<forall>i. i \<notin> set (newly_appeared (diff old new)) \<and> i \<notin> set (newly_removed (diff old new)) \<longrightarrow>
      map_of (reconcile src (diff old new) tbl) i = map_of tbl i) \<and>
   created src = \<lparr>origins = {src}, participated = 0, rounds_observed = 0, wasted = 0,
                  trusted = True\<rparr> \<and>
   reactivated src r = r\<lparr>origins := insert src (origins r), trusted := True\<rparr> \<and>
   without_origin src r =
     r\<lparr>origins := origins r - {src}, trusted := (trusted r \<and> origins r - {src} \<noteq> {})\<rparr> \<and>
   (rotation st \<noteq> [] \<and> pull (rotation st ! current st) = Inr new \<longrightarrow>
      validators (snd (fetchOne pull st)) =
        reconcile (source_name (rotation st ! current st))
          (diff (snapshot (rotation st ! current st)) new) (validators st) \<and>
      snapshot (rotation (snd (fetchOne pull st)) ! current st) = new)"
proof -
  have cur: "rotation st \<noteq> [] \<Longrightarrow> current st < length (rotation st)"
    by (simp add: current_def)
  have fetch: "rotation st \<noteq> [] \<and> pull (rotation st ! current st) = Inr new \<longrightarrow>
      validators (snd (fetchOne pull st)) =
        reconcile (source_name (rotation st ! current st))
          (diff (snapshot (rotation st ! current st)) new) (validators st) \<and>
      snapshot (rotation (snd (fetchOne pull st)) ! current st) = new"
    using cur by (simp add: fetchOne_def pull_succeeded_def Let_def)
  have sets: "set (unchanged (diff old new)) = set old \<inter> set new"
    "set (newly_appeared (diff old new)) = set new - set old"
    "set (newly_removed (diff old new)) = set old - set new"
    by (auto simp: diff_def)
  have recs: "created src = \<lparr>origins = {src}, participated = 0, rounds_observed = 0,
                  wasted = 0, trusted = True\<rparr>"
    "reactivated src r = r\<lparr>origins := insert src (origins r), trusted := True\<rparr>"
    "without_origin src r =
       r\<lparr>origins := origins r - {src}, trusted := (trusted r \<and> origins r - {src} \<noteq> {})\<rparr>"
    by (simp_all add: created_def reactivated_def without_origin_def Let_def)
  have tbl: "(\<forall>i \<in> set (newly_appeared (diff old new)).
      map_of (reconcile src (diff old new) tbl) i =
        Some (case map_of tbl i of None \<Rightarrow> created src | Some r \<Rightarrow> reactivated src r))"
    "(\<forall>i \<in> set (newly_removed (diff old new)).
      map_of (reconcile src (diff old new) tbl) i =
        map_option (without_origin src) (map_of tbl i))"
    "(\<forall>i. i \<notin> set (newly_appeared (diff old new)) \<and> i \<notin> set (newly_removed (diff old new)) \<longrightarrow>
      map_of (reconcile src (diff old new) tbl) i = map_of tbl i)"
    unfolding sets by (simp_all add: map_of_reconcile)
  from sets recs tbl fetch show ?thesis by blast
qed

text \<open>
  The example of the specification: the previous membership is alice, bob and carol,
  the pull returns bob, carol and dave.
\<close>

theorem reconcile_three_way_diff_witness:
  "diff example_old example_new =
     \<lparr>unchanged = [''bob'', ''carol''], newly_appeared = [''dave''],
      newly_removed = [''alice'']\<rparr> \<and>
   map_of (reconcile ''list-1'' (diff example_old example_new) example_before) ''dave'' =
     Some \<lparr>origins = {''list-1''}, participated = 0, rounds_observed = 0, wasted = 0,
           trusted = True\<rparr> \<and>
   map_of (reconcile ''list-1'' (diff example_old example_new) example_before) ''alice'' =
     Some \<lparr>origins = {}, participated = 9, rounds_observed = 10, wasted = 0,
           trusted = False\<rparr> \<and>
   map_of (reconcile ''list-1'' (diff example_old example_new) example_before) ''bob'' =
     map_of example_before ''bob''"
proof -
  have d: "diff example_old example_new =
     \<lparr>unchanged = [''bob'', ''carol''], newly_appeared = [''dave''],
      newly_removed = [''alice'']\<rparr>"
    by (simp add: diff_def example_old_def example_new_def)
  have t: "map_of example_before ''dave'' = None"
    "map_of example_before ''alice'' =
       Some \<lparr>origins = {''list-1''}, participated = 9, rounds_observed = 10, wasted = 0,
             trusted = True\<rparr>"
    by (simp_all add: example_before_def)
  show ?thesis
    using reconcile_three_way_diff
      [where old = example_old and new = example_new and src = "''list-1''"
         and tbl = example_before]
    by (simp add: d t)
qed

subsection \<open>A failed pull\<close>

text \<open>
  C8. When the pull of the Source at the cursor fails, as transiently unavailable or
  with malformed content, the snapshot of every Source, the known-validator table and
  what the Store holds are as before; only after a successful pull is the snapshot of
  the Source pulled replaced. In both cases the cursor moves past the Source, and the
  count returned is the number of Sources left in the pass.
\<close>

theorem failed_pull_keeps_membership:
  assumes "rotation st \<noteq> []"
  shows "(case pull (rotation st ! current st) of
            Inl e \<Rightarrow>
              map snapshot (rotation (snd (fetchOne pull st))) = map snapshot (rotation st) \<and>
              validators (snd (fetchOne pull st)) = validators st \<and>
              stored_snapshots (snd (fetchOne pull st)) = stored_snapshots st \<and>
              stored_validators (snd (fetchOne pull st)) = stored_validators st
          | Inr ids \<Rightarrow>
              map snapshot (rotation (snd (fetchOne pull st))) =
                (map snapshot (rotation st))[current st := ids]) \<and>
         fst (fetchOne pull st) = length (rotation st) - Suc (current st) \<and>
         cursor (snd (fetchOne pull st)) =
           (if Suc (current st) = length (rotation st) then 0 else Suc (current st))"
proof -
  have cur: "current st < length (rotation st)"
    using assms by (simp add: current_def)
  have same: "map snapshot ((rotation st)[current st := (rotation st ! current st)\<lparr>last_fetch := x\<rparr>])
          = map snapshot (rotation st)" for x
    using cur by (simp add: map_update list_update_same_conv)
  show ?thesis
  proof (cases "pull (rotation st ! current st)")
    case (Inl e)
    then show ?thesis
      using assms cur same by (auto simp: fetchOne_def pull_failed_def Let_def)
  next
    case (Inr ids)
    then show ?thesis
      using assms cur by (auto simp: fetchOne_def pull_succeeded_def Let_def map_update)
  qed
qed

text \<open>
  The first Source of the example is unavailable: both snapshots and the table are
  kept, one Source is left to visit and the cursor is at the second Source.
\<close>

theorem failed_pull_keeps_membership_witness:
  "rotation example_logic \<noteq> [] \<and>
   example_pull (rotation example_logic ! current example_logic) = Inl Transient_unavailable \<and>
   map snapshot (rotation (snd (fetchOne example_pull example_logic))) =
     [example_old, [''bob'']] \<and>
   validators (snd (fetchOne example_pull example_logic)) = example_before \<and>
   fst (fetchOne example_pull example_logic) = 1 \<and>
   cursor (snd (fetchOne example_pull example_logic)) = 1"
proof -
  have h1: "rotation example_logic \<noteq> []"
    by (simp add: example_logic_def)
  have h2: "example_pull (rotation example_logic ! current example_logic) =
      Inl Transient_unavailable"
    by (simp add: example_logic_def current_def example_pull_def)
  have c: "current example_logic = 0"
    by (simp add: example_logic_def current_def)
  show ?thesis
    using h1 h2
      failed_pull_keeps_membership [where st = example_logic and pull = example_pull]
    by (simp add: c) (simp add: example_logic_def)
qed

subsection \<open>The Chosen set\<close>

lemma pick_less: "cands \<noteq> [] \<Longrightarrow> pick roll cands < length cands"
  by (induction roll cands rule: pick.induct) auto

lemma sample_Suc:
  assumes "cands \<noteq> []"
  obtains k s1 where "k < length cands"
    and "sample rng (Suc n) s cands =
           fst (cands ! k) # sample rng n s1 (take k cands @ drop (Suc k) cands)"
proof -
  obtain r s1 where rs: "rng s = (r, s1)" by (cases "rng s")
  define k where "k = pick (if sum_list (map snd cands) = 0 then 0
                             else r mod sum_list (map snd cands)) cands"
  have "k < length cands" unfolding k_def using assms by (rule pick_less)
  moreover have "sample rng (Suc n) s cands =
      fst (cands ! k) # sample rng n s1 (take k cands @ drop (Suc k) cands)"
    using assms rs by (simp add: k_def Let_def)
  ultimately show thesis by (rule that)
qed

lemma length_sample: "length (sample rng n s cands) = min n (length cands)"
proof (induction n arbitrary: s cands)
  case 0
  then show ?case by simp
next
  case (Suc n)
  show ?case
  proof (cases "cands = []")
    case True
    then show ?thesis by simp
  next
    case False
    then obtain k s1 where k: "k < length cands"
      and eq: "sample rng (Suc n) s cands =
                 fst (cands ! k) # sample rng n s1 (take k cands @ drop (Suc k) cands)"
      by (rule sample_Suc)
    have "length (take k cands @ drop (Suc k) cands) = length cands - 1"
      using k by simp
    then show ?thesis
      unfolding eq using k by (simp add: Suc.IH)
  qed
qed

lemma sample_sound:
  "distinct (map fst cands) \<Longrightarrow>
     distinct (sample rng n s cands) \<and> set (sample rng n s cands) \<subseteq> fst ` set cands"
proof (induction n arbitrary: s cands)
  case 0
  then show ?case by simp
next
  case (Suc n)
  show ?case
  proof (cases "cands = []")
    case True
    then show ?thesis by simp
  next
    case False
    then obtain k s1 where k: "k < length cands"
      and eq: "sample rng (Suc n) s cands =
                 fst (cands ! k) # sample rng n s1 (take k cands @ drop (Suc k) cands)"
      by (rule sample_Suc)
    define rest where "rest = take k cands @ drop (Suc k) cands"
    have split: "cands = take k cands @ cands ! k # drop (Suc k) cands"
      using k by (rule id_take_nth_drop)
    have "distinct (map fst (take k cands @ cands ! k # drop (Suc k) cands))"
      using Suc.prems split by simp
    then have d: "distinct (map fst rest)" and notin: "fst (cands ! k) \<notin> fst ` set rest"
      unfolding rest_def by auto
    have "set rest \<subseteq> set cands"
      unfolding rest_def by (auto dest: in_set_takeD in_set_dropD)
    then have sub: "fst ` set rest \<subseteq> fst ` set cands" by (rule image_mono)
    have mem: "fst (cands ! k) \<in> fst ` set cands" using k by simp
    from Suc.IH [OF d, of s1] have ih: "distinct (sample rng n s1 rest)"
      "set (sample rng n s1 rest) \<subseteq> fst ` set rest" by auto
    show ?thesis
      unfolding eq rest_def [symmetric] using ih notin sub mem by auto
  qed
qed

lemma trusted_population_set:
  assumes "distinct (map fst tbl)"
  shows "(i, r) \<in> set (trusted_population tbl) \<longleftrightarrow> map_of tbl i = Some r \<and> trusted r"
  using assms by (auto simp: trusted_population_def)

lemma distinct_trusted_population:
  "distinct (map fst tbl) \<Longrightarrow> distinct (map fst (trusted_population tbl))"
  by (simp add: trusted_population_def distinct_map_filter)

lemma fst_weighted: "map fst (map (\<lambda>(i, r). (i, w r)) xs) = map fst xs"
  by (induction xs) auto

lemma buildChosen_subset:
  assumes "distinct (map fst tbl)"
  shows "distinct (buildChosen weight rng target s tbl) \<and>
         set (buildChosen weight rng target s tbl) \<subseteq> fst ` set (trusted_population tbl)"
proof (cases "length (trusted_population tbl) \<le> target")
  case True
  then show ?thesis
    using distinct_trusted_population [OF assms] by (simp add: buildChosen_def)
next
  case False
  let ?cands = "map (\<lambda>(i, r). (i, weight r)) (trusted_population tbl)"
  have "distinct (map fst ?cands)"
    unfolding fst_weighted using assms by (rule distinct_trusted_population)
  from sample_sound [OF this, of rng target s]
  have "distinct (sample rng target s ?cands) \<and>
        set (sample rng target s ?cands) \<subseteq> fst ` set ?cands" .
  moreover have "fst ` set ?cands = fst ` set (trusted_population tbl)"
    by force
  ultimately show ?thesis using False by (simp add: buildChosen_def)
qed

text \<open>
  C6. For a known-validator table with one record for each identity, the Chosen set
  has as many entries as the smaller of the trusted population and the target count;
  every entry is the identity of a trusted record; no identity occurs twice; and when
  the trusted population is at most the target count, the Chosen set is the trusted
  population.
\<close>

theorem buildChosen_size_trust_distinct:
  assumes "distinct (map fst tbl)"
  shows "length (buildChosen weight rng target s tbl) =
           min (length (trusted_population tbl)) target \<and>
         (\<forall>i \<in> set (buildChosen weight rng target s tbl).
            \<exists>r. map_of tbl i = Some r \<and> trusted r) \<and>
         distinct (buildChosen weight rng target s tbl) \<and>
         (length (trusted_population tbl) \<le> target \<longrightarrow>
            set (buildChosen weight rng target s tbl) =
              {i. \<exists>r. map_of tbl i = Some r \<and> trusted r}) \<and>
         length (trusted_population tbl) = card {i. \<exists>r. map_of tbl i = Some r \<and> trusted r}"
proof -
  have pop: "fst ` set (trusted_population tbl) = {i. \<exists>r. map_of tbl i = Some r \<and> trusted r}"
    using trusted_population_set [OF assms] by force
  have 1: "length (buildChosen weight rng target s tbl) =
           min (length (trusted_population tbl)) target"
    by (simp add: buildChosen_def length_sample Let_def)
  have 2: "distinct (buildChosen weight rng target s tbl)"
    and sub: "set (buildChosen weight rng target s tbl) \<subseteq> fst ` set (trusted_population tbl)"
    using buildChosen_subset [OF assms] by auto
  have 3: "\<forall>i \<in> set (buildChosen weight rng target s tbl).
            \<exists>r. map_of tbl i = Some r \<and> trusted r"
    using sub pop by auto
  have 4: "length (trusted_population tbl) \<le> target \<longrightarrow>
            set (buildChosen weight rng target s tbl) =
              {i. \<exists>r. map_of tbl i = Some r \<and> trusted r}"
    using pop by (simp add: buildChosen_def Let_def)
  have "card (fst ` set (trusted_population tbl)) = length (trusted_population tbl)"
    using distinct_card [OF distinct_trusted_population [OF assms]] by simp
  then have 5: "length (trusted_population tbl) =
      card {i. \<exists>r. map_of tbl i = Some r \<and> trusted r}"
    using pop by simp
  from 1 2 3 4 5 show ?thesis by blast
qed

text \<open>
  Three of the four validators of the example are trusted. With a target of two the
  sample is dave and bob; with a target of three the Chosen set is the whole trusted
  population.
\<close>

theorem buildChosen_size_trust_distinct_witness:
  "distinct (map fst example_table) \<and>
   buildChosen participated example_rng 2 15 example_table = [''dave'', ''bob''] \<and>
   length (trusted_population example_table) = 3 \<and>
   length (buildChosen participated example_rng 2 15 example_table) = 2 \<and>
   buildChosen participated example_rng 3 15 example_table = [''alice'', ''bob'', ''dave'']"
proof -
  have h: "distinct (map fst example_table)"
    by (simp add: example_table_def)
  have 1: "buildChosen participated example_rng 2 15 example_table = [''dave'', ''bob'']"
    by code_simp
  have 2: "buildChosen participated example_rng 3 15 example_table = [''alice'', ''bob'', ''dave'']"
    by code_simp
  have 3: "length (trusted_population example_table) = 3"
    by (simp add: trusted_population_def example_table_def)
  show ?thesis
    using h 1 2 3
      buildChosen_size_trust_distinct [OF h, of participated example_rng 2 15]
    by simp
qed

end
